theory Spec2Isabelle
  imports Complex_Main "HOL-Library.Word" "HOL-Library.Log_Nat"
begin

unbundle bit_operations_syntax

section \<open>Python values that reach the parser\<close>

text \<open>
  The decoder of \<^verbatim>\<open>custom_components/inkbird_ith11/parser.py\<close> is the function
  \<^verbatim>\<open>parse(service_info)\<close>. It reads one attribute of its argument,
  \<^verbatim>\<open>manufacturer_data\<close>, which Home Assistant fills with a dictionary from integer
  company identifiers to byte strings. Python is dynamically typed, so the attribute may be
  absent, may hold something that is not a dictionary, and the dictionary may hold values
  that are not byte strings. Reading the attribute and converting a value to bytes can
  also run code of the object itself, a property getter or a method \<^verbatim>\<open>__bytes__\<close>,
  and that code can raise any exception. The datatypes below cover these cases.
\<close>

subsection \<open>Exceptions\<close>

text \<open>
  The exceptions that occur, among them two that derive from \<^verbatim>\<open>BaseException\<close> only.
  A handler \<^verbatim>\<open>except Exception\<close> catches the others and lets these two pass.
\<close>

datatype pyexn =
    TypeError
  | ValueError
  | OverflowError
  | IndexError
  | AttributeError
  | KeyboardInterrupt
  | SystemExit

fun is_Exception :: "pyexn \<Rightarrow> bool" where
  "is_Exception KeyboardInterrupt = False"
| "is_Exception SystemExit = False"
| "is_Exception _ = True"

definition seq :: "pyexn + 'a \<Rightarrow> ('a \<Rightarrow> pyexn + 'b) \<Rightarrow> pyexn + 'b" where
  "seq m f = (case m of Inl e \<Rightarrow> Inl e | Inr v \<Rightarrow> f v)"

subsection \<open>Values\<close>

type_synonym byte = "8 word"

datatype pyval =
    PyNone
  | PyBytes "byte list"
  | PyByteArray "byte list"
  | PyMemoryView "byte list"
  | PyInt int
  | PyStr string
  | PyList "pyval list"
  | PyObject
  | PyCustom "pyexn + byte list"
  | PyBytesSub "byte list" pyexn

text \<open>
  \<open>PyObject\<close> stands for an object without buffer protocol, \<^verbatim>\<open>__bytes__\<close>,
  \<^verbatim>\<open>__index__\<close> or \<^verbatim>\<open>__iter__\<close>: the constructor \<^verbatim>\<open>bytes\<close> rejects it with
  a TypeError. \<open>PyCustom r\<close> is an object of a class that defines \<^verbatim>\<open>__bytes__\<close>:
  the method returns the bytes \<open>b\<close> when \<open>r = Inr b\<close> and raises \<open>e\<close> when
  \<open>r = Inl e\<close>. \<open>PyBytesSub b e\<close> is an object of a subclass of \<^verbatim>\<open>bytes\<close> with the
  content \<open>b\<close>, whose \<^verbatim>\<open>__getitem__\<close> raises \<open>e\<close>.
\<close>

text \<open>
  What reading the attribute finds: a dictionary, an object of a subclass of \<^verbatim>\<open>dict\<close>
  whose \<^verbatim>\<open>__contains__\<close> raises, another value, or a property whose getter raises.
\<close>

datatype pyattr =
    AttrDict "int \<rightharpoonup> pyval"
  | AttrDictSub pyexn
  | AttrOther pyval
  | AttrRaises pyexn

text \<open>
  The field is \<open>None\<close> when the object has no attribute \<^verbatim>\<open>manufacturer_data\<close>.
\<close>

record service_info =
  manufacturer_data :: "pyattr option"

text \<open>
  \<^verbatim>\<open>getattr(service_info, "manufacturer_data", None)\<close>: the default \<^verbatim>\<open>None\<close> stands
  in for a missing attribute and for an AttributeError of the getter; every other
  exception of the getter is raised.
\<close>

definition getattr_manufacturer_data :: "service_info \<Rightarrow> pyexn + pyattr option" where
  "getattr_manufacturer_data si =
     (case manufacturer_data si of
        Some (AttrRaises e) \<Rightarrow> if e = AttributeError then Inr None else Inl e
      | a \<Rightarrow> Inr a)"

subsection \<open>Floating point\<close>

text \<open>
  A Python float is an IEEE 754 binary64 number. The parser only produces finite ones,
  and a finite binary64 number is a rational: the model represents a float by its exact
  value. \<open>fl x\<close> is the binary64 number nearest to the rational \<open>x\<close> (ties to the even
  significand, 53 significant bits, gradual underflow below \<open>2\<^sup>-\<^sup>1\<^sup>0\<^sup>2\<^sup>2\<close>); overflow to
  infinity is not modelled, the values of the parser stay below 6554.
\<close>

type_synonym pyfloat = rat

definition round_half_even :: "rat \<Rightarrow> int" where
  "round_half_even x =
     (let f = \<lfloor>x\<rfloor>; d = x - of_int f
      in if d < 1 / 2 then f
         else if 1 / 2 < d then f + 1
         else if even f then f else f + 1)"

text \<open>\<open>ilog2 x\<close> is the integer \<open>e\<close> with \<open>2\<^sup>e \<le> x < 2\<^sup>e\<^sup>+\<^sup>1\<close>, for positive \<open>x\<close>.\<close>

definition ilog2 :: "rat \<Rightarrow> int" where
  "ilog2 x =
     (if 1 \<le> x then int (floorlog 2 (nat \<lfloor>x\<rfloor>)) - 1
      else (let k = int (floorlog 2 (nat \<lfloor>1 / x\<rfloor>))
            in if x * 2 powi (k - 1) = 1 then 1 - k else - k))"

definition fl :: "rat \<Rightarrow> pyfloat" where
  "fl x =
     (if x = 0 then 0
      else (let e = max (ilog2 \<bar>x\<bar>) (- 1022) - 52
            in sgn x * of_int (round_half_even (\<bar>x\<bar> * 2 powi (- e))) * 2 powi e))"

text \<open>
  \<^verbatim>\<open>a / b\<close> with an int on the left and a float on the right: the int is converted to
  a float, and the quotient is rounded once. The parser divides by the constant
  \<^verbatim>\<open>10.0\<close> only, so ZeroDivisionError has no branch.
\<close>

definition truediv :: "int \<Rightarrow> pyfloat \<Rightarrow> pyfloat" where
  "truediv a b = fl (fl (of_int a) / b)"

text \<open>
  \<^verbatim>\<open>round(x, ndigits)\<close> on a float: CPython rounds the exact value of \<open>x\<close> to
  \<open>ndigits\<close> decimals, ties to even, and converts that decimal back to the nearest float.
\<close>

definition py_round :: "pyfloat \<Rightarrow> nat \<Rightarrow> pyfloat" where
  "py_round x ndigits = fl (of_int (round_half_even (x * 10 ^ ndigits)) / 10 ^ ndigits)"

subsection \<open>Bytes\<close>

text \<open>
  What \<^verbatim>\<open>_as_bytes\<close> returns: a byte string, or the object of a subclass of
  \<^verbatim>\<open>bytes\<close> that it was given. Length and truth value are those of the content.
\<close>

datatype pybytes = Bytes "byte list" | BytesSub "byte list" pyexn

fun content :: "pybytes \<Rightarrow> byte list" where
  "content (Bytes b) = b"
| "content (BytesSub b e) = b"

text \<open>
  \<^verbatim>\<open>payload[i]\<close> on a bytes object gives the byte as an int between 0 and 255, counts a
  negative index from the end, and raises IndexError outside the object; on the subclass
  it raises what \<^verbatim>\<open>__getitem__\<close> raises.
\<close>

fun getitem :: "pybytes \<Rightarrow> int \<Rightarrow> pyexn + int" where
  "getitem (Bytes payload) i =
     (let j = (if i < 0 then i + int (length payload) else i)
      in if j < 0 \<or> int (length payload) \<le> j then Inl IndexError
         else Inr (uint (payload ! nat j)))"
| "getitem (BytesSub payload e) i = Inl e"

text \<open>
  The items of an iterable given to \<^verbatim>\<open>bytes\<close> must be ints in \<^verbatim>\<open>range(256)\<close>.
\<close>

fun byte_of_item :: "pyval \<Rightarrow> pyexn + byte" where
  "byte_of_item (PyInt k) = (if 0 \<le> k \<and> k < 256 then Inr (word_of_int k) else Inl ValueError)"
| "byte_of_item _ = Inl TypeError"

fun bytes_of_items :: "pyval list \<Rightarrow> pyexn + byte list" where
  "bytes_of_items [] = Inr []"
| "bytes_of_items (x # xs) =
     seq (byte_of_item x) (\<lambda>b. seq (bytes_of_items xs) (\<lambda>bs. Inr (b # bs)))"

text \<open>
  The constructor \<^verbatim>\<open>bytes(value)\<close>. An int \<open>n\<close> gives \<open>n\<close> zero bytes (ValueError when
  negative, OverflowError beyond the largest \<^verbatim>\<open>Py_ssize_t\<close>), a buffer is copied, a list
  is converted item by item, a method \<^verbatim>\<open>__bytes__\<close> is called, everything else is
  a TypeError. Memory is taken to suffice:
  a MemoryError derives from \<^verbatim>\<open>Exception\<close> too, and \<^verbatim>\<open>_as_bytes\<close> would turn
  it into the empty byte string like the others.
\<close>

fun py_bytes :: "pyval \<Rightarrow> pyexn + byte list" where
  "py_bytes (PyBytes b) = Inr b"
| "py_bytes (PyByteArray b) = Inr b"
| "py_bytes (PyMemoryView b) = Inr b"
| "py_bytes (PyInt n) =
     (if n < 0 then Inl ValueError
      else if 2 ^ 63 \<le> n then Inl OverflowError
      else Inr (replicate (nat n) 0))"
| "py_bytes (PyList xs) = bytes_of_items xs"
| "py_bytes PyNone = Inl TypeError"
| "py_bytes (PyStr s) = Inl TypeError"
| "py_bytes PyObject = Inl TypeError"
| "py_bytes (PyCustom r) = r"
| "py_bytes (PyBytesSub b e) = Inr b"

text \<open>\<^verbatim>\<open>_as_bytes\<close>, lines 17 to 28.\<close>

definition as_bytes :: "pyval \<Rightarrow> pyexn + pybytes" where
  "as_bytes v =
     (case v of
        PyNone \<Rightarrow> Inr (Bytes [])
      | PyBytes b \<Rightarrow> Inr (Bytes b)
      | PyBytesSub b e \<Rightarrow> Inr (BytesSub b e)
      | PyByteArray b \<Rightarrow> seq (py_bytes (PyByteArray b)) (\<lambda>b. Inr (Bytes b))
      | _ \<Rightarrow>
         (case py_bytes v of
            Inr b \<Rightarrow> Inr (Bytes b)
          | Inl e \<Rightarrow> if is_Exception e then Inr (Bytes []) else Inl e))"

section \<open>The parser\<close>

subsection \<open>The result dictionary\<close>

text \<open>
  \<^verbatim>\<open>parse\<close> returns a dictionary with string keys, whose values are floats
  (temperature, humidity) or an int (battery). Dictionaries are mutable objects: the
  model keeps them in a heap, a reference is an index into it. \<^verbatim>\<open>{}\<close> allocates
  a new dictionary, \<^verbatim>\<open>result[k] = v\<close> updates the one \<open>result\<close> refers to.
\<close>

datatype pynum = PyFloatNum pyfloat | PyIntNum int

type_synonym pydict = "string \<rightharpoonup> pynum"
type_synonym heap = "pydict list"
type_synonym ref = nat

definition new_dict :: "heap \<Rightarrow> ref \<times> heap" where
  "new_dict h = (length h, h @ [Map.empty])"

definition setitem :: "heap \<Rightarrow> ref \<Rightarrow> string \<Rightarrow> pynum \<Rightarrow> heap" where
  "setitem h r k v = h[r := (h ! r)(k \<mapsto> v)]"

subsection \<open>Decoding\<close>

text \<open>
  Lines 119 to 125: the three raw values and the two scaled ones. \<^verbatim>\<open>x << 8\<close> on a
  Python int is \<open>push_bit 8 x\<close>.
\<close>

definition readings :: "pybytes \<Rightarrow> pyexn + (pyfloat \<times> pyfloat \<times> int)" where
  "readings payload =
     seq (getitem payload 7) (\<lambda>b7.
     seq (getitem payload 6) (\<lambda>b6.
     seq (getitem payload 5) (\<lambda>b5.
     seq (getitem payload 4) (\<lambda>b4.
     seq (getitem payload 8) (\<lambda>batt.
       let raw_hum = push_bit 8 b7 + b6;
           raw_temp = push_bit 8 b5 + b4;
           hum = py_round (truediv raw_hum 10) 1;
           temp = py_round (truediv raw_temp 10) 1
       in Inr (temp, hum, batt))))))"

text \<open>
  Lines 118 to 133, the inner \<^verbatim>\<open>try\<close>: the stores into \<open>result\<close> and its return, or
  a new empty dictionary when an Exception was raised.
\<close>

definition inner_try :: "heap \<Rightarrow> ref \<Rightarrow> pybytes \<Rightarrow> (pyexn + ref) \<times> heap" where
  "inner_try h result payload =
     (case readings payload of
        Inr (temp, hum, batt) \<Rightarrow>
          (let h1 = setitem h result ''temperature'' (PyFloatNum temp);
               h2 = setitem h1 result ''humidity'' (PyFloatNum hum);
               h3 = setitem h2 result ''battery'' (PyIntNum batt)
           in (Inr result, h3))
      | Inl e \<Rightarrow>
          if is_Exception e then (let (r, h') = new_dict h in (Inr r, h'))
          else (Inl e, h))"

text \<open>
  Lines 109 to 133, the body of the outer \<^verbatim>\<open>try\<close>. \<open>Inr None\<close> says that the body
  ended without a \<^verbatim>\<open>return\<close>. \<^verbatim>\<open>isinstance(mfg, dict)\<close> holds for a dictionary
  and for an object of a subclass, and \<^verbatim>\<open>9545 in mfg\<close> calls \<^verbatim>\<open>__contains__\<close> of
  the latter. \<^verbatim>\<open>payload and len(payload) > 8\<close> tests that the bytes are not empty and
  more than eight.
\<close>

definition outer_try :: "heap \<Rightarrow> ref \<Rightarrow> service_info \<Rightarrow> (pyexn + ref option) \<times> heap" where
  "outer_try h result si =
     (case getattr_manufacturer_data si of
        Inl e \<Rightarrow> (Inl e, h)
      | Inr (Some (AttrDictSub e)) \<Rightarrow> (Inl e, h)
      | Inr (Some (AttrDict mfg)) \<Rightarrow>
          (case mfg 9545 of
             Some v \<Rightarrow>
               (case as_bytes v of
                  Inl e \<Rightarrow> (Inl e, h)
                | Inr payload \<Rightarrow>
                    if content payload \<noteq> [] \<and> 8 < length (content payload) then
                      (case inner_try h result payload of
                         (Inl e, h') \<Rightarrow> (Inl e, h')
                       | (Inr r, h') \<Rightarrow> (Inr (Some r), h'))
                    else (Inr None, h))
           | None \<Rightarrow> (Inr None, h))
      | Inr _ \<Rightarrow> (Inr None, h))"

text \<open>
  \<^verbatim>\<open>parse\<close>, lines 99 to 137, as a function of the heap before the call: the
  reference it returns (or the exception it lets pass) and the heap after the call.
\<close>

definition parse_heap :: "heap \<Rightarrow> service_info \<Rightarrow> (pyexn + ref) \<times> heap" where
  "parse_heap h si =
     (let (result, h1) = new_dict h
      in case outer_try h1 result si of
           (Inr (Some r), h2) \<Rightarrow> (Inr r, h2)
         | (Inr None, h2) \<Rightarrow> (let (r, h3) = new_dict h2 in (Inr r, h3))
         | (Inl e, h2) \<Rightarrow>
             if is_Exception e then (let (r, h3) = new_dict h2 in (Inr r, h3))
             else (Inl e, h2))"

text \<open>
  What the caller sees: the content of the returned dictionary. \<open>parse\<close> is the call on the
  empty heap.
\<close>

definition outcome :: "(pyexn + ref) \<times> heap \<Rightarrow> pyexn + pydict" where
  "outcome res = (case res of (Inl e, h) \<Rightarrow> Inl e | (Inr r, h) \<Rightarrow> Inr (h ! r))"

definition parse :: "service_info \<Rightarrow> pyexn + pydict" where
  "parse si = outcome (parse_heap [] si)"

text \<open>
  An advertisement that carries \<open>v\<close> under the company identifier \<open>cid\<close> and nothing
  else, as the repository's tests build it.
\<close>

definition advert :: "int \<Rightarrow> pyval \<Rightarrow> service_info" where
  "advert cid v = \<lparr>manufacturer_data = Some (AttrDict [cid \<mapsto> v])\<rparr>"

text \<open>
  The exception that the input's own code raises and no handler of the parser catches,
  if there is one. It does not derive from \<^verbatim>\<open>Exception\<close> and is raised by the getter
  of the attribute, by \<^verbatim>\<open>__contains__\<close> of the dictionary, by \<^verbatim>\<open>__bytes__\<close> of the
  value under 9545, or by \<^verbatim>\<open>__getitem__\<close> of that value when its content has more
  than eight bytes.
\<close>

definition uncaught :: "service_info \<Rightarrow> pyexn option" where
  "uncaught si =
     (case manufacturer_data si of
        Some (AttrRaises e) \<Rightarrow> if is_Exception e then None else Some e
      | Some (AttrDictSub e) \<Rightarrow> if is_Exception e then None else Some e
      | Some (AttrDict mfg) \<Rightarrow>
          (case mfg 9545 of
             Some (PyCustom (Inl e)) \<Rightarrow> if is_Exception e then None else Some e
           | Some (PyBytesSub b e) \<Rightarrow>
               if 8 < length b \<and> \<not> is_Exception e then Some e else None
           | _ \<Rightarrow> None)
      | _ \<Rightarrow> None)"

subsection \<open>The values of a payload of nine bytes or more\<close>

text \<open>
  What lines 119 to 129 compute when the five indices are inside the payload, written
  without the exception plumbing; \<open>readings_in_range\<close> below proves that \<open>readings\<close>
  returns exactly these.
\<close>

definition temperature_of :: "byte list \<Rightarrow> pyfloat" where
  "temperature_of p = py_round (truediv (push_bit 8 (uint (p ! 5)) + uint (p ! 4)) 10) 1"

definition humidity_of :: "byte list \<Rightarrow> pyfloat" where
  "humidity_of p = py_round (truediv (push_bit 8 (uint (p ! 7)) + uint (p ! 6)) 10) 1"

definition battery_of :: "byte list \<Rightarrow> int" where
  "battery_of p = uint (p ! 8)"

definition reading_dict :: "byte list \<Rightarrow> pydict" where
  "reading_dict p =
     [''temperature'' \<mapsto> PyFloatNum (temperature_of p),
      ''humidity'' \<mapsto> PyFloatNum (humidity_of p),
      ''battery'' \<mapsto> PyIntNum (battery_of p)]"

text \<open>\<^verbatim>\<open>res.get(key)\<close> on what \<open>parse\<close> gave, \<open>None\<close> when the key is missing.\<close>

definition result_get :: "string \<Rightarrow> pyexn + pydict \<Rightarrow> pynum option" where
  "result_get key res = (case res of Inl e \<Rightarrow> None | Inr d \<Rightarrow> d key)"

subsection \<open>The decoding algorithm in the words of the specification\<close>

text \<open>
  The specification reconstructs the raw values with a bitwise or,
  \<^verbatim>\<open>rawTemperature = (payload[5] << 8) | payload[4]\<close> and
  \<^verbatim>\<open>rawHumidity = (payload[7] << 8) | payload[6]\<close>, where the source adds; it scales with
  \<^verbatim>\<open>round(raw / 10.0, 1)\<close> and takes \<^verbatim>\<open>payload[8]\<close> as the battery.
\<close>

definition spec_raw_temperature :: "byte list \<Rightarrow> int" where
  "spec_raw_temperature p = push_bit 8 (uint (p ! 5)) OR uint (p ! 4)"

definition spec_raw_humidity :: "byte list \<Rightarrow> int" where
  "spec_raw_humidity p = push_bit 8 (uint (p ! 7)) OR uint (p ! 6)"

definition spec_temperature :: "byte list \<Rightarrow> pyfloat" where
  "spec_temperature p = py_round (truediv (spec_raw_temperature p) 10) 1"

definition spec_humidity :: "byte list \<Rightarrow> pyfloat" where
  "spec_humidity p = py_round (truediv (spec_raw_humidity p) 10) 1"

definition spec_battery :: "byte list \<Rightarrow> int" where
  "spec_battery p = uint (p ! 8)"

subsection \<open>Sample advertisements\<close>

text \<open>
  The two payloads of \<^verbatim>\<open>tests/run_parser_tests.py\<close> (tests 4 and 5), and one whose
  battery byte is 200.
\<close>

definition payload4 :: "byte list" where
  "payload4 = [0x02, 0x28, 0x07, 0x5C, 0xA1, 0x00, 0xE7, 0x03, 0x46, 0x00, 0x44, 0x08,
               0x00, 0x00, 0x00, 0x00]"

definition payload5 :: "byte list" where
  "payload5 = [0x02, 0x28, 0x07, 0x5C, 0x9F, 0x00, 0xE7, 0x03, 0x56, 0x00, 0x44, 0x08,
               0x00, 0x00, 0x00, 0x00]"

definition payload_battery_200 :: "byte list" where
  "payload_battery_200 = [0x02, 0x28, 0x07, 0x5C, 0xA1, 0x00, 0xE7, 0x03, 0xC8]"

text \<open>
  A payload that shares the bytes 4 to 8 with \<open>payload4\<close> and nothing else, and the
  first eight bytes of \<open>payload4\<close>.
\<close>

definition payload4_other_frame :: "byte list" where
  "payload4_other_frame = [0xFF, 0xEE, 0xDD, 0xCC, 0xA1, 0x00, 0xE7, 0x03, 0x46, 0x99, 0x77]"

definition payload4_cut :: "byte list" where
  "payload4_cut = [0x02, 0x28, 0x07, 0x5C, 0xA1, 0x00, 0xE7, 0x03]"

section \<open>Properties of the building blocks\<close>

lemma shift_add_eq_or:
  "push_bit 8 (a :: int) + uint (b :: byte) = push_bit 8 a OR uint b"
  by (rule disjunctive_add_eq_or) (auto simp: bit_eq_iff bit_simps dest: bit_imp_le_length)

lemma raw16_bounds:
  "0 \<le> push_bit 8 (uint (a :: byte)) OR uint (b :: byte) \<and>
   push_bit 8 (uint a) OR uint b < 65536"
proof -
  have a: "0 \<le> uint a" "uint a < 256" using uint_lt2p [of a] by simp_all
  have b: "0 \<le> uint b" "uint b < 256" using uint_lt2p [of b] by simp_all
  have "push_bit 8 (uint a) OR uint b = push_bit 8 (uint a) + uint b"
    by (rule shift_add_eq_or [symmetric])
  also have "\<dots> = uint a * 256 + uint b"
    by (simp add: push_bit_eq_mult)
  finally show ?thesis using a b by simp
qed

lemma getitem_in_range:
  "i < length payload \<Longrightarrow> getitem (Bytes payload) (int i) = Inr (uint (payload ! i))"
  by simp

lemma readings_in_range:
  assumes "8 < length payload"
  shows "readings (Bytes payload)
           = Inr (temperature_of payload, humidity_of payload, battery_of payload)"
proof -
  have g: "getitem (Bytes payload) 4 = Inr (uint (payload ! 4))"
      "getitem (Bytes payload) 5 = Inr (uint (payload ! 5))"
      "getitem (Bytes payload) 6 = Inr (uint (payload ! 6))"
      "getitem (Bytes payload) 7 = Inr (uint (payload ! 7))"
      "getitem (Bytes payload) 8 = Inr (uint (payload ! 8))"
    using assms getitem_in_range [of 4 payload] getitem_in_range [of 5 payload]
      getitem_in_range [of 6 payload] getitem_in_range [of 7 payload]
      getitem_in_range [of 8 payload]
    by simp_all
  show ?thesis
    by (simp only: readings_def g seq_def temperature_of_def humidity_of_def battery_of_def
        sum.case Let_def)
qed

lemma readings_sub: "readings (BytesSub b e) = Inl e"
  by (simp add: readings_def seq_def)

text \<open>
  An exception of \<^verbatim>\<open>bytes(value)\<close> derives from \<^verbatim>\<open>Exception\<close>, unless the
  method \<^verbatim>\<open>__bytes__\<close> of the value raised it.
\<close>

lemma bytes_of_items_Exception: "bytes_of_items xs = Inl e \<Longrightarrow> is_Exception e"
proof (induction xs arbitrary: e)
  case Nil
  then show ?case by simp
next
  case (Cons x xs)
  show ?case
  proof (cases "byte_of_item x")
    case (Inl e')
    then have "e' = e" using Cons.prems by (simp add: seq_def)
    moreover have "is_Exception e'"
      using Inl by (cases x) (auto split: if_splits)
    ultimately show ?thesis by simp
  next
    case (Inr b)
    then show ?thesis
      using Cons by (cases "bytes_of_items xs") (auto simp: seq_def)
  qed
qed

lemma py_bytes_Exception: "py_bytes v = Inl e \<Longrightarrow> is_Exception e \<or> v = PyCustom (Inl e)"
  by (cases v) (auto split: if_splits dest: bytes_of_items_Exception)

lemma as_bytes_PyBytes: "as_bytes (PyBytes b) = Inr (Bytes b)"
  by (simp add: as_bytes_def)

lemma as_bytes_PyCustom:
  "as_bytes (PyCustom (Inr b)) = Inr (Bytes b)"
  "is_Exception e \<Longrightarrow> as_bytes (PyCustom (Inl e)) = Inr (Bytes [])"
  "\<not> is_Exception e \<Longrightarrow> as_bytes (PyCustom (Inl e)) = Inl e"
  by (simp_all add: as_bytes_def)

lemma as_bytes_PyBytesSub: "as_bytes (PyBytesSub b e) = Inr (BytesSub b e)"
  by (simp add: as_bytes_def)

text \<open>
  \<^verbatim>\<open>_as_bytes\<close> returns bytes, unless \<^verbatim>\<open>__bytes__\<close> raised an exception that
  \<^verbatim>\<open>except Exception\<close> does not catch; it returns the object of a subclass only when
  it was given one.
\<close>

lemma as_bytes_raises: "as_bytes v = Inl e \<Longrightarrow> \<not> is_Exception e \<and> v = PyCustom (Inl e)"
proof -
  assume r: "as_bytes v = Inl e"
  show ?thesis
  proof (cases "py_bytes v")
    case (Inl e')
    with r have "e' = e" and n: "\<not> is_Exception e"
      by (cases v; simp add: as_bytes_def seq_def split: if_splits)+
    with Inl py_bytes_Exception [of v e] show ?thesis by simp
  next
    case (Inr b)
    with r show ?thesis by (cases v) (simp_all add: as_bytes_def seq_def)
  qed
qed

lemma as_bytes_sub: "as_bytes v = Inr (BytesSub b e) \<Longrightarrow> v = PyBytesSub b e"
  by (cases v) (auto simp: as_bytes_def seq_def split: sum.splits if_splits)

lemma getattr_dict:
  "manufacturer_data si = Some (AttrDict mfg) \<Longrightarrow>
   getattr_manufacturer_data si = Inr (Some (AttrDict mfg))"
  by (simp add: getattr_manufacturer_data_def)

section \<open>Rounding to one decimal\<close>

text \<open>
  \<open>ilog2\<close> is the binary exponent, \<open>fl\<close> is exact on the raw values and within
  \<open>2\<^sup>-\<^sup>4\<^sup>1\<close> of every argument between 1/16 and 8192. So the float \<^verbatim>\<open>raw / 10.0\<close>
  is so close to \<open>raw / 10\<close> that \<^verbatim>\<open>round(raw / 10.0, 1)\<close> is the float nearest to
  \<open>raw / 10\<close>, for every raw value of 16 bits.
\<close>

lemma floorlog_rat_bounds:
  fixes y :: rat
  assumes "1 \<le> y"
  defines "b \<equiv> floorlog 2 (nat \<lfloor>y\<rfloor>)"
  shows "0 < b" and "2 ^ (b - 1) \<le> y" and "y < 2 ^ b"
proof -
  define n where "n = nat \<lfloor>y\<rfloor>"
  have n: "0 < n" using assms(1) by (simp add: n_def)
  have fb: "2 ^ (b - 1) \<le> n" "n < 2 ^ b"
    unfolding b_def n_def [symmetric] using floorlog_bounds [of n 2] n by simp_all
  show "0 < b"
    using fb n by (cases b) auto
  have ny: "of_nat n \<le> y" "y < of_nat (n + 1)"
    using assms(1) unfolding n_def by (simp_all add: of_nat_nat) linarith
  have "(of_nat (2 ^ (b - 1)) :: rat) \<le> of_nat n"
    using fb(1) of_nat_le_iff by blast
  from this ny(1) have "(of_nat (2 ^ (b - 1)) :: rat) \<le> y" by (rule order_trans)
  then show "2 ^ (b - 1) \<le> y" by (simp only: of_nat_power of_nat_numeral)
  have "n + 1 \<le> 2 ^ b" using fb(2) by simp
  then have "(of_nat (n + 1) :: rat) \<le> of_nat (2 ^ b)"
    using of_nat_le_iff by blast
  with ny(2) have "y < (of_nat (2 ^ b) :: rat)" by (rule less_le_trans)
  then show "y < 2 ^ b" by (simp only: of_nat_power of_nat_numeral)
qed

lemma ilog2_bounds:
  assumes "0 < x"
  shows "2 powi (ilog2 x) \<le> x \<and> x < 2 powi (ilog2 x + 1)"
proof (cases "1 \<le> x")
  case True
  define b where "b = floorlog 2 (nat \<lfloor>x\<rfloor>)"
  have b: "0 < b" "2 ^ (b - 1) \<le> x" "x < 2 ^ b"
    using floorlog_rat_bounds [OF True] by (simp_all add: b_def)
  have i: "ilog2 x = int b - 1"
    using True by (simp add: ilog2_def b_def)
  have "int b - 1 = int (b - 1)" using b(1) by simp
  then have "(2::rat) powi (int b - 1) = 2 ^ (b - 1)"
    by (simp only: power_int_of_nat)
  moreover have "(2::rat) powi (int b - 1 + 1) = 2 ^ b"
    by simp
  ultimately show ?thesis using b i by simp
next
  case False
  define k where "k = floorlog 2 (nat \<lfloor>1 / x\<rfloor>)"
  have y: "1 \<le> 1 / x" using False assms by simp
  have k: "0 < k" "2 ^ (k - 1) \<le> 1 / x" "1 / x < 2 ^ k"
    using floorlog_rat_bounds [OF y] by (simp_all add: k_def)
  have p1: "(2::rat) powi (int k - 1) = 2 ^ (k - 1)"
  proof -
    have "int k - 1 = int (k - 1)" using k(1) by simp
    then show ?thesis by (simp only: power_int_of_nat)
  qed
  have up: "x * 2 ^ (k - 1) \<le> 1"
    using k(2) assms by (simp add: field_simps)
  have lo: "1 < x * 2 ^ k"
    using k(3) assms by (simp add: field_simps)
  have m1: "(2::rat) powi (- int k) = 1 / 2 ^ k"
    by (simp add: power_int_minus field_simps)
  have m2: "(2::rat) powi (1 - int k) = 1 / 2 ^ (k - 1)"
  proof -
    have e: "1 - int k = - int (k - 1)" using k(1) by simp
    have "(2::rat) powi (1 - int k) = 2 powi (- int (k - 1))" by (simp only: e)
    also have "\<dots> = inverse (2 powi int (k - 1))" by (rule power_int_minus)
    also have "\<dots> = inverse (2 ^ (k - 1))" by (simp only: power_int_of_nat)
    finally show ?thesis by (simp only: divide_inverse mult_1)
  qed
  have m3: "(2::rat) powi (2 - int k) = 2 / 2 ^ (k - 1)"
  proof -
    have "(2::rat) powi (2 - int k) = 2 powi (1 + (1 - int k))" by simp
    also have "\<dots> = 2 * 2 powi (1 - int k)"
      by (subst power_int_add) simp_all
    finally show ?thesis by (simp add: m2)
  qed
  show ?thesis
  proof (cases "x * 2 powi (int k - 1) = 1")
    case True
    then have i: "ilog2 x = 1 - int k"
      using False by (simp add: ilog2_def k_def Let_def)
    have xe: "1 / 2 ^ (k - 1) = x"
      using True by (simp add: p1 field_simps)
    have "(2::rat) powi (ilog2 x) = x"
      by (simp only: i m2 xe)
    moreover have "(2::rat) powi (ilog2 x + 1) = 2 * x"
    proof -
      have "ilog2 x + 1 = 2 - int k" using i by simp
      then have "(2::rat) powi (ilog2 x + 1) = 2 / 2 ^ (k - 1)" by (simp only: m3)
      also have "\<dots> = 2 * (1 / 2 ^ (k - 1))" by simp
      finally show ?thesis by (simp only: xe)
    qed
    ultimately show ?thesis using assms by simp
  next
    case F: False
    then have i: "ilog2 x = - int k"
      using False by (simp add: ilog2_def k_def Let_def)
    have "x * 2 ^ (k - 1) < 1" using up F by (simp add: p1)
    then have "x < 1 / 2 ^ (k - 1)" by (simp add: field_simps)
    moreover have "1 / 2 ^ k < x" using lo by (simp add: field_simps)
    moreover have "- int k + 1 = 1 - int k" by simp
    ultimately show ?thesis
      by (simp add: i m1 m2)
  qed
qed

lemma round_half_even_near: "\<bar>of_int (round_half_even y) - y\<bar> \<le> 1 / 2"
proof -
  have "of_int \<lfloor>y\<rfloor> \<le> y" "y < of_int \<lfloor>y\<rfloor> + 1" by linarith+
  then show ?thesis
    by (auto simp: round_half_even_def Let_def)
qed

lemma round_half_even_unique:
  assumes "\<bar>y - of_int m\<bar> < 1 / 2"
  shows "round_half_even y = m"
proof -
  have "\<bar>(of_int (round_half_even y) :: rat) - of_int m\<bar> < 1"
    using round_half_even_near [of y] assms by linarith
  then have "\<bar>(of_int (round_half_even y - m) :: rat)\<bar> < 1" by simp
  then have "\<bar>round_half_even y - m\<bar> < 1"
    by (metis of_int_abs of_int_less_1_iff)
  then show ?thesis by simp
qed

lemma round_half_even_of_int: "round_half_even (of_int m) = m"
  by (rule round_half_even_unique) simp

lemma ilog2_less:
  assumes "0 < x" and "x < 2 powi N"
  shows "ilog2 x < N"
proof (rule ccontr)
  assume "\<not> ilog2 x < N"
  then have "(2::rat) powi N \<le> 2 powi (ilog2 x)"
    by (intro power_int_increasing) simp_all
  with ilog2_bounds [OF assms(1)] assms(2) show False by linarith
qed

lemma ilog2_ge:
  assumes "0 < x" and "2 powi N \<le> x"
  shows "N \<le> ilog2 x"
proof (rule ccontr)
  assume "\<not> N \<le> ilog2 x"
  then have "(2::rat) powi (ilog2 x + 1) \<le> 2 powi N"
    by (intro power_int_increasing) simp_all
  with ilog2_bounds [OF assms(1)] assms(2) show False by linarith
qed

lemma fl_positive:
  assumes "0 < x" and "- 1022 \<le> ilog2 x"
  shows "fl x = of_int (round_half_even (x * 2 powi (52 - ilog2 x))) * 2 powi (ilog2 x - 52)"
proof -
  have "max (ilog2 x) (- 1022) = ilog2 x" using assms(2) by simp
  moreover have "- (ilog2 x - 52) = 52 - ilog2 x" by simp
  ultimately show ?thesis
    using assms(1) by (simp add: fl_def Let_def)
qed

lemma fl_error:
  assumes "1 / 16 \<le> x" and "x < 8192"
  shows "\<bar>fl x - x\<bar> \<le> 1 / 2 ^ 41"
proof -
  have pos: "0 < x" using assms(1) by simp
  have "(2::rat) powi (- 4) \<le> x" using assms(1) by (simp add: power_int_minus)
  then have lo: "- 4 \<le> ilog2 x" using pos by (intro ilog2_ge)
  have "x < 2 powi 13" using assms(2) by simp
  then have hi: "ilog2 x < 13" using pos by (intro ilog2_less)
  define e where "e = ilog2 x - 52"
  define z where "z = x * 2 powi (- e)"
  have pe: "(0::rat) < 2 powi e" by simp
  have f: "fl x = of_int (round_half_even z) * 2 powi e"
    using fl_positive [OF pos] lo by (simp add: e_def z_def)
  have x: "x = z * 2 powi e"
    by (simp add: z_def power_int_minus)
  have "fl x - x = (of_int (round_half_even z) - z) * 2 powi e"
    by (simp add: f x [symmetric] algebra_simps)
  then have "\<bar>fl x - x\<bar> = \<bar>of_int (round_half_even z) - z\<bar> * 2 powi e"
    using pe by (simp add: abs_mult)
  also have "\<dots> \<le> 1 / 2 * 2 powi e"
    using round_half_even_near [of z] pe by (intro mult_right_mono) simp_all
  also have "\<dots> \<le> 1 / 2 * 2 powi (- 40)"
  proof -
    have "e \<le> - 40" using hi by (simp add: e_def)
    then have "(2::rat) powi e \<le> 2 powi (- 40)" by (intro power_int_increasing) simp_all
    then show ?thesis by simp
  qed
  also have "\<dots> = 1 / 2 ^ 41" by (simp add: power_int_minus)
  finally show ?thesis .
qed

lemma fl_of_int:
  assumes "0 \<le> n" and "n < 65536"
  shows "fl (of_int n) = of_int n"
proof (cases "n = 0")
  case True
  then show ?thesis by (simp add: fl_def)
next
  case False
  define x :: rat where "x = of_int n"
  have pos: "0 < x" and one: "1 \<le> x" using assms(1) False by (simp_all add: x_def)
  have "(2::rat) powi 0 \<le> x" using one by simp
  then have lo: "0 \<le> ilog2 x" using pos by (intro ilog2_ge)
  have "x < 65536" using assms(2) unfolding x_def by (metis of_int_less_numeral_iff)
  then have "x < 2 powi 16" by simp
  then have hi: "ilog2 x < 16" using pos by (intro ilog2_less)
  define k where "k = nat (52 - ilog2 x)"
  have k: "52 - ilog2 x = int k" "ilog2 x - 52 = - int k"
    using hi by (simp_all add: k_def)
  have "fl x = of_int (round_half_even (x * 2 powi (int k))) * 2 powi (- int k)"
    using fl_positive [OF pos] lo by (simp only: k)
  also have "x * 2 powi (int k) = of_int (n * 2 ^ k)"
    by (simp add: x_def)
  also have "round_half_even (of_int (n * 2 ^ k)) = n * 2 ^ k"
    by (rule round_half_even_of_int)
  also have "of_int (n * 2 ^ k) * (2::rat) powi (- int k) = of_int n"
    by (simp add: power_int_minus)
  finally show ?thesis by (simp add: x_def)
qed

lemma round_tenths:
  assumes "0 \<le> n" and "n < 65536"
  shows "py_round (truediv n 10) 1 = fl (of_int n / 10)"
proof -
  have t: "truediv n 10 = fl (of_int n / 10)"
    by (simp add: truediv_def fl_of_int [OF assms])
  have "round_half_even (fl (of_int n / 10) * 10) = n"
  proof (cases "n = 0")
    case True
    then show ?thesis by (simp add: fl_def round_half_even_of_int [of 0, simplified])
  next
    case False
    define x :: rat where "x = of_int n / 10"
    have "1 \<le> n" using assms(1) False by simp
    then have "(1::rat) \<le> of_int n" by simp
    then have lo: "1 / 16 \<le> x" by (simp add: x_def)
    have "(of_int n :: rat) < 65536" using assms(2) by (metis of_int_less_numeral_iff)
    then have hi: "x < 8192" by (simp add: x_def)
    have d: "\<bar>fl x - x\<bar> \<le> 1 / 2 ^ 41" using lo hi by (rule fl_error)
    have "fl x * 10 - of_int n = (fl x - x) * 10" by (simp add: x_def algebra_simps)
    then have "\<bar>fl x * 10 - of_int n\<bar> = \<bar>fl x - x\<bar> * 10"
      by (simp only: abs_mult)
    also have "\<dots> \<le> 1 / 2 ^ 41 * 10"
      using d by (intro mult_right_mono) simp_all
    also have "\<dots> < 1 / 2" by simp
    finally have "\<bar>fl x * 10 - of_int n\<bar> < 1 / 2" .
    then show ?thesis unfolding x_def by (rule round_half_even_unique)
  qed
  then show ?thesis by (simp add: py_round_def t)
qed

section \<open>The three ways a call ends\<close>

lemma inner_try_in_range:
  assumes "8 < length payload" and "r < length h"
  shows "inner_try h r (Bytes payload) =
           (Inr r, h[r := (h ! r)(''temperature'' \<mapsto> PyFloatNum (temperature_of payload),
                                 ''humidity'' \<mapsto> PyFloatNum (humidity_of payload),
                                 ''battery'' \<mapsto> PyIntNum (battery_of payload))])"
  using assms by (simp add: inner_try_def readings_in_range setitem_def)

lemma parse_heap_reading:
  assumes "manufacturer_data si = Some (AttrDict mfg)" and "mfg 9545 = Some v"
    and "as_bytes v = Inr (Bytes payload)" and "8 < length payload"
  shows "parse_heap h si = (Inr (length h), h @ [reading_dict payload])"
proof -
  have "payload \<noteq> []" using assms(4) by auto
  then show ?thesis
    using assms
    by (simp add: parse_heap_def new_dict_def outer_try_def getattr_dict inner_try_in_range
        reading_dict_def)
qed

lemma parse_heap_short:
  assumes "manufacturer_data si = Some (AttrDict mfg)" and "mfg 9545 = Some v"
    and "as_bytes v = Inr payload" and "length (content payload) \<le> 8"
  shows "parse_heap h si = (Inr (Suc (length h)), h @ [Map.empty, Map.empty])"
  using assms by (simp add: parse_heap_def new_dict_def outer_try_def getattr_dict)

lemma parse_heap_no_key:
  assumes "manufacturer_data si = Some (AttrDict mfg)" and "mfg 9545 = None"
  shows "parse_heap h si = (Inr (Suc (length h)), h @ [Map.empty, Map.empty])"
  using assms by (simp add: parse_heap_def new_dict_def outer_try_def getattr_dict)

lemma parse_heap_no_dict:
  assumes "manufacturer_data si = None \<or> (\<exists>v. manufacturer_data si = Some (AttrOther v))"
  shows "parse_heap h si = (Inr (Suc (length h)), h @ [Map.empty, Map.empty])"
  using assms
  by (auto simp: parse_heap_def new_dict_def outer_try_def getattr_manufacturer_data_def)

text \<open>
  The getter of the attribute or \<^verbatim>\<open>__contains__\<close> of the dictionary raises: the outer
  handler decides.
\<close>

lemma parse_heap_getter_caught:
  assumes "manufacturer_data si = Some (AttrRaises e) \<or> manufacturer_data si = Some (AttrDictSub e)"
    and "is_Exception e"
  shows "parse_heap h si = (Inr (Suc (length h)), h @ [Map.empty, Map.empty])"
  using assms
  by (auto simp: parse_heap_def new_dict_def outer_try_def getattr_manufacturer_data_def)

lemma parse_heap_getter_passes:
  assumes "manufacturer_data si = Some (AttrRaises e) \<or> manufacturer_data si = Some (AttrDictSub e)"
    and "\<not> is_Exception e"
  shows "parse_heap h si = (Inl e, h @ [Map.empty])"
proof -
  have "e \<noteq> AttributeError" using assms(2) by auto
  then show ?thesis
    using assms
    by (auto simp: parse_heap_def new_dict_def outer_try_def getattr_manufacturer_data_def)
qed

text \<open>\<^verbatim>\<open>__bytes__\<close> raises what \<^verbatim>\<open>_as_bytes\<close> does not catch: nothing else does.\<close>

lemma parse_heap_bytes_passes:
  assumes "manufacturer_data si = Some (AttrDict mfg)" and "mfg 9545 = Some v"
    and "as_bytes v = Inl e"
  shows "parse_heap h si = (Inl e, h @ [Map.empty])"
proof -
  have "\<not> is_Exception e" using as_bytes_raises [OF assms(3)] by simp
  then show ?thesis
    using assms by (simp add: parse_heap_def new_dict_def outer_try_def getattr_dict)
qed

text \<open>\<^verbatim>\<open>__getitem__\<close> raises on the first index: the inner handler decides.\<close>

lemma parse_heap_index_caught:
  assumes "manufacturer_data si = Some (AttrDict mfg)" and "mfg 9545 = Some v"
    and "as_bytes v = Inr (BytesSub b e)" and "8 < length b" and "is_Exception e"
  shows "parse_heap h si = (Inr (Suc (length h)), h @ [Map.empty, Map.empty])"
proof -
  have "b \<noteq> []" using assms(4) by auto
  then show ?thesis
    using assms
    by (simp add: parse_heap_def new_dict_def outer_try_def getattr_dict inner_try_def
        readings_sub)
qed

lemma parse_heap_index_passes:
  assumes "manufacturer_data si = Some (AttrDict mfg)" and "mfg 9545 = Some v"
    and "as_bytes v = Inr (BytesSub b e)" and "8 < length b" and "\<not> is_Exception e"
  shows "parse_heap h si = (Inl e, h @ [Map.empty])"
proof -
  have "b \<noteq> []" using assms(4) by auto
  then show ?thesis
    using assms
    by (simp add: parse_heap_def new_dict_def outer_try_def getattr_dict inner_try_def
        readings_sub)
qed

lemma uncaught_dict:
  assumes "manufacturer_data si = Some (AttrDict mfg)" and "mfg 9545 = Some v"
  shows "as_bytes v = Inr (Bytes payload) \<Longrightarrow> uncaught si = None"
    and "as_bytes v = Inl e \<Longrightarrow> uncaught si = Some e"
    and "as_bytes v = Inr (BytesSub b e) \<Longrightarrow>
           uncaught si = (if 8 < length b \<and> \<not> is_Exception e then Some e else None)"
proof -
  show "uncaught si = None" if "as_bytes v = Inr (Bytes payload)"
  proof (cases "\<exists>e. v = PyCustom (Inl e)")
    case True
    then obtain e where v: "v = PyCustom (Inl e)" by blast
    with that have "is_Exception e"
      using as_bytes_PyCustom(3) [of e] by (cases "is_Exception e") simp_all
    with v assms show ?thesis by (simp add: uncaught_def)
  next
    case False
    moreover have "v \<noteq> PyBytesSub b' e'" for b' e'
      using that by (auto simp: as_bytes_PyBytesSub)
    ultimately show ?thesis
      using assms by (auto simp: uncaught_def split: pyval.splits sum.splits)
  qed
  show "uncaught si = Some e" if "as_bytes v = Inl e"
    using as_bytes_raises [OF that] assms by (simp add: uncaught_def)
  show "uncaught si = (if 8 < length b \<and> \<not> is_Exception e then Some e else None)"
    if "as_bytes v = Inr (BytesSub b e)"
    using as_bytes_sub [OF that] assms by (simp add: uncaught_def)
qed

text \<open>
  Which of the three it is depends on the input alone, not on the heap.
\<close>

lemma parse_heap_shape:
  "(\<exists>mfg v payload. manufacturer_data si = Some (AttrDict mfg) \<and> mfg 9545 = Some v \<and>
      as_bytes v = Inr (Bytes payload) \<and> 8 < length payload \<and> uncaught si = None \<and>
      (\<forall>h. parse_heap h si = (Inr (length h), h @ [reading_dict payload])))
   \<or> (uncaught si = None \<and>
       (\<forall>h. parse_heap h si = (Inr (Suc (length h)), h @ [Map.empty, Map.empty])))
   \<or> (\<exists>e. uncaught si = Some e \<and> \<not> is_Exception e \<and>
         (\<forall>h. parse_heap h si = (Inl e, h @ [Map.empty])))"
proof (cases "manufacturer_data si")
  case None
  then show ?thesis by (simp add: parse_heap_no_dict uncaught_def)
next
  case (Some a)
  show ?thesis
  proof (cases a)
    case (AttrOther v)
    with Some show ?thesis by (simp add: parse_heap_no_dict uncaught_def)
  next
    case (AttrRaises e)
    with Some have d: "manufacturer_data si = Some (AttrRaises e)" by simp
    show ?thesis
    proof (cases "is_Exception e")
      case True
      with d show ?thesis by (simp add: parse_heap_getter_caught uncaught_def)
    next
      case False
      with d show ?thesis by (simp add: parse_heap_getter_passes uncaught_def)
    qed
  next
    case (AttrDictSub e)
    with Some have d: "manufacturer_data si = Some (AttrDictSub e)" by simp
    show ?thesis
    proof (cases "is_Exception e")
      case True
      with d show ?thesis by (simp add: parse_heap_getter_caught uncaught_def)
    next
      case False
      with d show ?thesis by (simp add: parse_heap_getter_passes uncaught_def)
    qed
  next
    case (AttrDict mfg)
    with Some have d: "manufacturer_data si = Some (AttrDict mfg)" by simp
    show ?thesis
    proof (cases "mfg 9545")
      case None
      with d show ?thesis by (simp add: parse_heap_no_key uncaught_def)
    next
      case v: (Some v)
      show ?thesis
      proof (cases "as_bytes v")
        case (Inl e)
        have "\<not> is_Exception e" using as_bytes_raises [OF Inl] by simp
        moreover have "uncaught si = Some e" using d v Inl by (rule uncaught_dict(2))
        moreover have "\<forall>h. parse_heap h si = (Inl e, h @ [Map.empty])"
          using d v Inl by (simp add: parse_heap_bytes_passes)
        ultimately show ?thesis by blast
      next
        case (Inr pb)
        show ?thesis
        proof (cases pb)
          case (Bytes payload)
          with Inr have ab: "as_bytes v = Inr (Bytes payload)" by simp
          have u: "uncaught si = None" using d v ab by (rule uncaught_dict(1))
          show ?thesis
          proof (cases "8 < length payload")
            case True
            with d v ab
            have "\<forall>h. parse_heap h si = (Inr (length h), h @ [reading_dict payload])"
              by (simp add: parse_heap_reading)
            with d v ab True u show ?thesis by blast
          next
            case False
            then have "length (content (Bytes payload)) \<le> 8" by simp
            with d v ab
            have "\<forall>h. parse_heap h si = (Inr (Suc (length h)), h @ [Map.empty, Map.empty])"
              by (simp add: parse_heap_short)
            with u show ?thesis by blast
          qed
        next
          case (BytesSub b e)
          with Inr have ab: "as_bytes v = Inr (BytesSub b e)" by simp
          have u: "uncaught si = (if 8 < length b \<and> \<not> is_Exception e then Some e else None)"
            using d v ab by (rule uncaught_dict(3))
          show ?thesis
          proof (cases "8 < length b")
            case False
            then have "length (content (BytesSub b e)) \<le> 8" by simp
            with d v ab
            have "\<forall>h. parse_heap h si = (Inr (Suc (length h)), h @ [Map.empty, Map.empty])"
              by (simp add: parse_heap_short)
            with u False show ?thesis by simp
          next
            case True
            show ?thesis
            proof (cases "is_Exception e")
              case caught: True
              with d v ab True
              have "\<forall>h. parse_heap h si = (Inr (Suc (length h)), h @ [Map.empty, Map.empty])"
                by (simp add: parse_heap_index_caught)
              with u caught show ?thesis by simp
            next
              case passes: False
              with d v ab True
              have "\<forall>h. parse_heap h si = (Inl e, h @ [Map.empty])"
                by (simp add: parse_heap_index_passes)
              with u True passes show ?thesis by simp
            qed
          qed
        qed
      qed
    qed
  qed
qed

lemma parse_reading:
  assumes "manufacturer_data si = Some (AttrDict mfg)" and "mfg 9545 = Some v"
    and "as_bytes v = Inr (Bytes payload)" and "8 < length payload"
  shows "parse si = Inr (reading_dict payload)"
  using parse_heap_reading [OF assms, of "[]"] by (simp add: parse_def outcome_def)

lemma parse_short:
  assumes "manufacturer_data si = Some (AttrDict mfg)" and "mfg 9545 = Some v"
    and "as_bytes v = Inr payload" and "length (content payload) \<le> 8"
  shows "parse si = Inr Map.empty"
  using parse_heap_short [OF assms, of "[]"] by (simp add: parse_def outcome_def)

lemma parse_no_key:
  assumes "manufacturer_data si = Some (AttrDict mfg)" and "mfg 9545 = None"
  shows "parse si = Inr Map.empty"
  using parse_heap_no_key [OF assms, of "[]"] by (simp add: parse_def outcome_def)

text \<open>The same for \<open>parse\<close>, with the origin of a reading.\<close>

lemma parse_shape:
  "(\<exists>mfg v payload. manufacturer_data si = Some (AttrDict mfg) \<and> mfg 9545 = Some v \<and>
      as_bytes v = Inr (Bytes payload) \<and> 8 < length payload \<and> uncaught si = None \<and>
      parse si = Inr (reading_dict payload))
   \<or> (uncaught si = None \<and> parse si = Inr Map.empty)
   \<or> (\<exists>e. uncaught si = Some e \<and> \<not> is_Exception e \<and> parse si = Inl e)"
  using parse_heap_shape [of si]
proof (elim disjE exE conjE)
  fix mfg v payload
  assume o: "manufacturer_data si = Some (AttrDict mfg)" "mfg 9545 = Some v"
    "as_bytes v = Inr (Bytes payload)" "8 < length payload" "uncaught si = None"
    and h: "\<forall>h. parse_heap h si = (Inr (length h), h @ [reading_dict payload])"
  from h have "parse_heap [] si = (Inr 0, [reading_dict payload])" by simp
  then have "parse si = Inr (reading_dict payload)" by (simp add: parse_def outcome_def)
  with o show ?thesis by blast
next
  assume u: "uncaught si = None"
    and h: "\<forall>h. parse_heap h si = (Inr (Suc (length h)), h @ [Map.empty, Map.empty])"
  from h have "parse_heap [] si = (Inr (Suc 0), [Map.empty, Map.empty])" by simp
  then have "parse si = Inr Map.empty" by (simp add: parse_def outcome_def)
  with u show ?thesis by blast
next
  fix e
  assume u: "uncaught si = Some e" "\<not> is_Exception e"
    and h: "\<forall>h. parse_heap h si = (Inl e, h @ [Map.empty])"
  from h have "parse_heap [] si = (Inl e, [Map.empty])" by simp
  then have "parse si = Inl e" by (simp add: parse_def outcome_def)
  with u show ?thesis by blast
qed

section \<open>The reading of a payload\<close>

lemma reading_dict_not_empty: "reading_dict p \<noteq> Map.empty"
proof
  assume "reading_dict p = Map.empty"
  then have "reading_dict p ''battery'' = None" by simp
  then show False by (simp add: reading_dict_def)
qed

lemma dom_reading_dict: "dom (reading_dict p) = {''temperature'', ''humidity'', ''battery''}"
  by (auto simp: reading_dict_def)

lemma temperature_of_spec: "temperature_of p = spec_temperature p"
  by (simp add: temperature_of_def spec_temperature_def spec_raw_temperature_def shift_add_eq_or)

lemma humidity_of_spec: "humidity_of p = spec_humidity p"
  by (simp add: humidity_of_def spec_humidity_def spec_raw_humidity_def shift_add_eq_or)

text \<open>
  The two floats of a reading are the floats nearest to a tenth of the raw values.
\<close>

lemma reading_nearest_tenth:
  "temperature_of p = fl (of_int (spec_raw_temperature p) / 10)"
  "humidity_of p = fl (of_int (spec_raw_humidity p) / 10)"
proof -
  have "0 \<le> spec_raw_temperature p \<and> spec_raw_temperature p < 65536"
    unfolding spec_raw_temperature_def by (rule raw16_bounds)
  then have "py_round (truediv (spec_raw_temperature p) 10) 1
               = fl (of_int (spec_raw_temperature p) / 10)"
    by (intro round_tenths) simp_all
  then show "temperature_of p = fl (of_int (spec_raw_temperature p) / 10)"
    by (simp only: temperature_of_spec spec_temperature_def)
  have "0 \<le> spec_raw_humidity p \<and> spec_raw_humidity p < 65536"
    unfolding spec_raw_humidity_def by (rule raw16_bounds)
  then have "py_round (truediv (spec_raw_humidity p) 10) 1
               = fl (of_int (spec_raw_humidity p) / 10)"
    by (intro round_tenths) simp_all
  then show "humidity_of p = fl (of_int (spec_raw_humidity p) / 10)"
    by (simp only: humidity_of_spec spec_humidity_def)
qed

text \<open>
  Three values of \<open>fl\<close> that are known from the binary64 format: 1/2 is a float, and
  the floats written \<^verbatim>\<open>0.1\<close> and \<^verbatim>\<open>16.1\<close> have these exact values.
\<close>

lemma fl_examples:
  "fl (1 / 2) = 1 / 2"
  "fl (1 / 10) = 3602879701896397 / 36028797018963968"
  "fl (161 / 10) = 2265873562520781 / 140737488355328"
  by code_simp+

text \<open>The raw values of the samples.\<close>

lemma float_161: "py_round (truediv 161 10) 1 = fl (161 / 10)"
  using round_tenths [of 161] by simp

lemma float_159: "py_round (truediv 159 10) 1 = fl (159 / 10)"
  using round_tenths [of 159] by simp

lemma float_999: "py_round (truediv 999 10) 1 = fl (999 / 10)"
  using round_tenths [of 999] by simp

lemma raw_values_payload4:
  "push_bit 8 (uint (payload4 ! 5)) + uint (payload4 ! 4) = 161"
  "push_bit 8 (uint (payload4 ! 7)) + uint (payload4 ! 6) = 999"
  "uint (payload4 ! 8) = 70"
  by (simp_all add: payload4_def)

lemma raw_values_payload5:
  "push_bit 8 (uint (payload5 ! 5)) + uint (payload5 ! 4) = 159"
  "push_bit 8 (uint (payload5 ! 7)) + uint (payload5 ! 6) = 999"
  "uint (payload5 ! 8) = 86"
  by (simp_all add: payload5_def)

lemma reading_dict_payload4:
  "reading_dict payload4 =
     [''temperature'' \<mapsto> PyFloatNum (fl (161 / 10)),
      ''humidity'' \<mapsto> PyFloatNum (fl (999 / 10)),
      ''battery'' \<mapsto> PyIntNum 70]"
  unfolding reading_dict_def temperature_of_def humidity_of_def battery_of_def
  by (simp only: raw_values_payload4 float_161 float_999)

lemma reading_dict_payload5:
  "reading_dict payload5 =
     [''temperature'' \<mapsto> PyFloatNum (fl (159 / 10)),
      ''humidity'' \<mapsto> PyFloatNum (fl (999 / 10)),
      ''battery'' \<mapsto> PyIntNum 86]"
  unfolding reading_dict_def temperature_of_def humidity_of_def battery_of_def
  by (simp only: raw_values_payload5 float_159 float_999)

lemma manufacturer_data_advert:
  "manufacturer_data (advert cid v) = Some (AttrDict [cid \<mapsto> v])"
  by (simp add: advert_def)

lemma length_samples:
  "length payload4 = 16" "length payload5 = 16" "length payload_battery_200 = 9"
  "length payload4_other_frame = 11" "length payload4_cut = 8"
  by (simp_all add: payload4_def payload5_def payload_battery_200_def
      payload4_other_frame_def payload4_cut_def)

lemma battery_of_bounds: "0 \<le> battery_of p \<and> battery_of p \<le> 255"
proof -
  have "uint (p ! 8) < 2 ^ LENGTH(8)" by (rule uint_lt2p)
  then show ?thesis by (simp add: battery_of_def)
qed

text \<open>
  The three handlers at work, the one of \<^verbatim>\<open>_as_bytes\<close>, the outer and the inner one
  of \<^verbatim>\<open>parse\<close>: an exception that derives from \<^verbatim>\<open>Exception\<close> is caught and the
  result is the empty dictionary; KeyboardInterrupt passes all of them.
\<close>

lemma handlers_catch:
  "parse (advert 9545 (PyCustom (Inl ValueError))) = Inr Map.empty"
  "parse \<lparr>manufacturer_data = Some (AttrRaises TypeError)\<rparr> = Inr Map.empty"
  "parse \<lparr>manufacturer_data = Some (AttrDictSub TypeError)\<rparr> = Inr Map.empty"
  "parse (advert 9545 (PyBytesSub payload4 IndexError)) = Inr Map.empty"
  "parse (advert 9545 (PyBytesSub payload4 KeyboardInterrupt)) = Inl KeyboardInterrupt"
proof -
  show "parse (advert 9545 (PyCustom (Inl ValueError))) = Inr Map.empty"
    by (rule parse_short [where mfg = "[9545 \<mapsto> PyCustom (Inl ValueError)]"
          and v = "PyCustom (Inl ValueError)" and payload = "Bytes []"])
       (simp_all add: manufacturer_data_advert as_bytes_PyCustom)
  show "parse \<lparr>manufacturer_data = Some (AttrRaises TypeError)\<rparr> = Inr Map.empty"
    using parse_heap_getter_caught [of "\<lparr>manufacturer_data = Some (AttrRaises TypeError)\<rparr>"
        TypeError "[]"]
    by (simp add: parse_def outcome_def)
  show "parse \<lparr>manufacturer_data = Some (AttrDictSub TypeError)\<rparr> = Inr Map.empty"
    using parse_heap_getter_caught [of "\<lparr>manufacturer_data = Some (AttrDictSub TypeError)\<rparr>"
        TypeError "[]"]
    by (simp add: parse_def outcome_def)
  show "parse (advert 9545 (PyBytesSub payload4 IndexError)) = Inr Map.empty"
    using parse_heap_index_caught [of "advert 9545 (PyBytesSub payload4 IndexError)"
        "[9545 \<mapsto> PyBytesSub payload4 IndexError]" "PyBytesSub payload4 IndexError"
        payload4 IndexError "[]"]
    by (simp add: parse_def outcome_def manufacturer_data_advert as_bytes_PyBytesSub
        length_samples)
  show "parse (advert 9545 (PyBytesSub payload4 KeyboardInterrupt)) = Inl KeyboardInterrupt"
    using parse_heap_index_passes [of "advert 9545 (PyBytesSub payload4 KeyboardInterrupt)"
        "[9545 \<mapsto> PyBytesSub payload4 KeyboardInterrupt]"
        "PyBytesSub payload4 KeyboardInterrupt" payload4 KeyboardInterrupt "[]"]
    by (simp add: parse_def outcome_def manufacturer_data_advert as_bytes_PyBytesSub
        length_samples)
qed

section \<open>The claims\<close>

text \<open>
  In the theorems below a payload is presented under company id 9545 when the attribute
  \<^verbatim>\<open>manufacturer_data\<close> is a dictionary \<open>mfg\<close> with \<open>mfg 9545 = Some (PyBytes payload)\<close>;
  the dictionary may hold other entries. NoReading is the empty dictionary, \<open>Inr Map.empty\<close>.
\<close>

text \<open>
  C1. For every payload of at least 9 bytes presented under company id 9545, the decoder
  returns a reading whose temperature is \<^verbatim>\<open>round(((payload[5] << 8) | payload[4]) / 10.0, 1)\<close>,
  whose humidity is \<^verbatim>\<open>round(((payload[7] << 8) | payload[6]) / 10.0, 1)\<close> and whose battery
  is \<^verbatim>\<open>payload[8]\<close> as an integer; the two raw values are unsigned 16-bit numbers, between
  0 and 65535. The source adds the two bytes where the specification takes their bitwise
  or: the theorem shows that both give the same reading.
\<close>

theorem parse_fields_as_specified:
  assumes "manufacturer_data si = Some (AttrDict mfg)"
    and "mfg 9545 = Some (PyBytes payload)"
    and "9 \<le> length payload"
  shows "result_get ''temperature'' (parse si) = Some (PyFloatNum (spec_temperature payload)) \<and>
         result_get ''humidity'' (parse si) = Some (PyFloatNum (spec_humidity payload)) \<and>
         result_get ''battery'' (parse si) = Some (PyIntNum (spec_battery payload)) \<and>
         0 \<le> spec_raw_temperature payload \<and> spec_raw_temperature payload < 65536 \<and>
         0 \<le> spec_raw_humidity payload \<and> spec_raw_humidity payload < 65536"
proof -
  have "8 < length payload" using assms(3) by simp
  with assms(1,2) have "parse si = Inr (reading_dict payload)"
    by (simp add: parse_reading [where v = "PyBytes payload"] as_bytes_PyBytes)
  then have "result_get ''temperature'' (parse si) = Some (PyFloatNum (spec_temperature payload))"
    and "result_get ''humidity'' (parse si) = Some (PyFloatNum (spec_humidity payload))"
    and "result_get ''battery'' (parse si) = Some (PyIntNum (spec_battery payload))"
    by (simp_all add: result_get_def reading_dict_def temperature_of_spec humidity_of_spec
        battery_of_def spec_battery_def)
  moreover have "0 \<le> spec_raw_temperature payload \<and> spec_raw_temperature payload < 65536"
    unfolding spec_raw_temperature_def by (rule raw16_bounds)
  moreover have "0 \<le> spec_raw_humidity payload \<and> spec_raw_humidity payload < 65536"
    unfolding spec_raw_humidity_def by (rule raw16_bounds)
  ultimately show ?thesis by simp
qed

theorem parse_fields_as_specified_witness:
  "manufacturer_data (advert 9545 (PyBytes payload4)) = Some (AttrDict [9545 \<mapsto> PyBytes payload4]) \<and>
   [9545 \<mapsto> PyBytes payload4] 9545 = Some (PyBytes payload4) \<and>
   9 \<le> length payload4 \<and>
   result_get ''temperature'' (parse (advert 9545 (PyBytes payload4)))
     = Some (PyFloatNum (spec_temperature payload4)) \<and>
   result_get ''humidity'' (parse (advert 9545 (PyBytes payload4)))
     = Some (PyFloatNum (spec_humidity payload4)) \<and>
   result_get ''battery'' (parse (advert 9545 (PyBytes payload4)))
     = Some (PyIntNum (spec_battery payload4)) \<and>
   0 \<le> spec_raw_temperature payload4 \<and> spec_raw_temperature payload4 < 65536 \<and>
   0 \<le> spec_raw_humidity payload4 \<and> spec_raw_humidity payload4 < 65536"
proof -
  have h1: "manufacturer_data (advert 9545 (PyBytes payload4))
              = Some (AttrDict [9545 \<mapsto> PyBytes payload4])"
    by (rule manufacturer_data_advert)
  have h2: "[9545 \<mapsto> PyBytes payload4] (9545 :: int) = Some (PyBytes payload4)"
    by simp
  have h3: "9 \<le> length payload4"
    by (simp add: length_samples)
  show ?thesis
    using h1 h2 h3 parse_fields_as_specified [OF h1 h2 h3] by simp
qed

text \<open>
  C2, as the specification states it: the battery of every reading is between 0 and 100.
  The parser stores the byte at offset 8 as it is, so a payload whose byte 8 is 200 gives
  the battery 200.
\<close>

theorem battery_above_100:
  "result_get ''battery'' (parse (advert 9545 (PyBytes payload_battery_200))) = Some (PyIntNum 200) \<and>
   (100 :: int) < 200"
proof -
  have "parse (advert 9545 (PyBytes payload_battery_200)) = Inr (reading_dict payload_battery_200)"
    by (rule parse_reading [where mfg = "[9545 \<mapsto> PyBytes payload_battery_200]"
          and v = "PyBytes payload_battery_200"])
       (simp_all add: manufacturer_data_advert as_bytes_PyBytes length_samples)
  moreover have "battery_of payload_battery_200 = 200"
    by (simp add: battery_of_def payload_battery_200_def)
  ultimately show ?thesis
    by (simp add: result_get_def reading_dict_def)
qed

text \<open>
  C2, amended: for every successful decode, the battery of the returned reading is the
  byte at offset 8 of the payload under company id 9545, as an integer between 0 and 255;
  the parser does not clamp it. The payload is what \<^verbatim>\<open>_as_bytes\<close> makes of the value
  under 9545, the value itself when it is a byte string.
\<close>

theorem battery_is_byte_8:
  assumes "parse si = Inr d" and "d \<noteq> Map.empty"
  shows "(\<exists>mfg v payload. manufacturer_data si = Some (AttrDict mfg) \<and> mfg 9545 = Some v \<and>
            as_bytes v = Inr (Bytes payload) \<and> 8 < length payload \<and>
            d ''battery'' = Some (PyIntNum (uint (payload ! 8))) \<and>
            0 \<le> uint (payload ! 8) \<and> uint (payload ! 8) \<le> 255) \<and>
         (\<forall>mfg p. manufacturer_data si = Some (AttrDict mfg) \<longrightarrow> mfg 9545 = Some (PyBytes p) \<longrightarrow>
            d ''battery'' = Some (PyIntNum (uint (p ! 8))))"
proof -
  from parse_shape [of si] assms obtain mfg v payload
    where o: "manufacturer_data si = Some (AttrDict mfg)" "mfg 9545 = Some v"
      "as_bytes v = Inr (Bytes payload)" "8 < length payload"
      and d: "d = reading_dict payload"
    by auto
  have b: "d ''battery'' = Some (PyIntNum (uint (payload ! 8)))"
    by (simp add: d reading_dict_def battery_of_def)
  have r: "0 \<le> uint (payload ! 8) \<and> uint (payload ! 8) \<le> 255"
    using battery_of_bounds [of payload] by (simp add: battery_of_def)
  have "d ''battery'' = Some (PyIntNum (uint (p ! 8)))"
    if "manufacturer_data si = Some (AttrDict mfg')" and "mfg' 9545 = Some (PyBytes p)"
    for mfg' p
  proof -
    from that o(1,2) have "v = PyBytes p" by simp
    with o(3) have "payload = p" by (simp add: as_bytes_PyBytes)
    with b show ?thesis by simp
  qed
  with o b r show ?thesis by blast
qed

theorem battery_is_byte_8_witness:
  "parse (advert 9545 (PyBytes payload_battery_200)) = Inr (reading_dict payload_battery_200) \<and>
   reading_dict payload_battery_200 \<noteq> Map.empty \<and>
   manufacturer_data (advert 9545 (PyBytes payload_battery_200))
     = Some (AttrDict [9545 \<mapsto> PyBytes payload_battery_200]) \<and>
   [9545 \<mapsto> PyBytes payload_battery_200] 9545 = Some (PyBytes payload_battery_200) \<and>
   reading_dict payload_battery_200 ''battery''
     = Some (PyIntNum (uint (payload_battery_200 ! 8))) \<and>
   uint (payload_battery_200 ! 8) = 200"
proof -
  have h1: "parse (advert 9545 (PyBytes payload_battery_200)) = Inr (reading_dict payload_battery_200)"
    by (rule parse_reading [where mfg = "[9545 \<mapsto> PyBytes payload_battery_200]"
          and v = "PyBytes payload_battery_200"])
       (simp_all add: manufacturer_data_advert as_bytes_PyBytes length_samples)
  have h2: "reading_dict payload_battery_200 \<noteq> Map.empty"
    by (rule reading_dict_not_empty)
  have h3: "manufacturer_data (advert 9545 (PyBytes payload_battery_200))
              = Some (AttrDict [9545 \<mapsto> PyBytes payload_battery_200])"
    by (rule manufacturer_data_advert)
  have h4: "[9545 \<mapsto> PyBytes payload_battery_200] (9545 :: int)
              = Some (PyBytes payload_battery_200)"
    by simp
  have h5: "uint (payload_battery_200 ! 8) = 200"
    by (simp add: payload_battery_200_def)
  from battery_is_byte_8 [OF h1 h2] h3 h4
  have "reading_dict payload_battery_200 ''battery''
          = Some (PyIntNum (uint (payload_battery_200 ! 8)))"
    by blast
  with h1 h2 h3 h4 h5 show ?thesis by simp
qed

text \<open>
  C3. The result is all or nothing: for every input the parser returns either the empty
  dictionary or a dictionary with exactly the three keys temperature, humidity and battery,
  the first two bound to floats and the third to an int. A dictionary with some but not
  all of the three never occurs. The only other way a call ends is without any result:
  the input's own code raised an exception that \<^verbatim>\<open>except Exception\<close> lets pass.
\<close>

theorem all_or_nothing:
  "(\<exists>d. parse si = Inr d \<and>
      (d = Map.empty \<or>
       (\<exists>t h b. d = [''temperature'' \<mapsto> PyFloatNum t, ''humidity'' \<mapsto> PyFloatNum h,
                     ''battery'' \<mapsto> PyIntNum b])))
   \<or> (\<exists>e. uncaught si = Some e \<and> parse si = Inl e)"
  using parse_shape [of si] by (auto simp: reading_dict_def)

theorem all_or_nothing_witness:
  "uncaught (advert 9545 (PyBytes payload4)) = None \<and>
   (\<exists>d. parse (advert 9545 (PyBytes payload4)) = Inr d \<and>
      (d = Map.empty \<or>
       (\<exists>t h b. d = [''temperature'' \<mapsto> PyFloatNum t, ''humidity'' \<mapsto> PyFloatNum h,
                     ''battery'' \<mapsto> PyIntNum b])))"
proof -
  have u: "uncaught (advert 9545 (PyBytes payload4)) = None"
    by (simp add: uncaught_def advert_def)
  with all_or_nothing [of "advert 9545 (PyBytes payload4)"] show ?thesis by simp
qed

text \<open>
  C4. Whatever the payload, a company id other than 9545 gives NoReading: an advertisement
  that carries the payload under another id, and more generally every dictionary without
  the key 9545, decode to the empty dictionary.
\<close>

theorem other_company_id_no_reading:
  "(cid \<noteq> 9545 \<longrightarrow> parse (advert cid v) = Inr Map.empty) \<and>
   (manufacturer_data si = Some (AttrDict mfg) \<longrightarrow> mfg 9545 = None \<longrightarrow> parse si = Inr Map.empty)"
proof (intro conjI impI)
  assume "cid \<noteq> 9545"
  then have "[cid \<mapsto> v] 9545 = None" by simp
  with manufacturer_data_advert [of cid v] show "parse (advert cid v) = Inr Map.empty"
    by (rule parse_no_key)
next
  assume "manufacturer_data si = Some (AttrDict mfg)" and "mfg 9545 = None"
  then show "parse si = Inr Map.empty" by (rule parse_no_key)
qed

theorem other_company_id_no_reading_witness:
  "(1 :: int) \<noteq> 9545 \<and> parse (advert 1 (PyBytes payload4)) = Inr Map.empty \<and>
   manufacturer_data (advert 76 (PyBytes payload5)) = Some (AttrDict [76 \<mapsto> PyBytes payload5]) \<and>
   [76 \<mapsto> PyBytes payload5] (9545 :: int) = None \<and>
   parse (advert 76 (PyBytes payload5)) = Inr Map.empty"
  using other_company_id_no_reading [of 1 "PyBytes payload4" "advert 76 (PyBytes payload5)"
      "[76 \<mapsto> PyBytes payload5]"]
  by (simp add: manufacturer_data_advert)

text \<open>
  C5. A payload of 8 bytes or fewer, the empty one included, presented under company id
  9545 gives NoReading.
\<close>

theorem short_payload_no_reading:
  assumes "manufacturer_data si = Some (AttrDict mfg)"
    and "mfg 9545 = Some (PyBytes payload)"
    and "length payload \<le> 8"
  shows "parse si = Inr Map.empty"
proof -
  have "length (content (Bytes payload)) \<le> 8" using assms(3) by simp
  with assms(1,2) as_bytes_PyBytes show ?thesis by (rule parse_short)
qed

theorem short_payload_no_reading_witness:
  "manufacturer_data (advert 9545 (PyBytes payload4_cut))
     = Some (AttrDict [9545 \<mapsto> PyBytes payload4_cut]) \<and>
   [9545 \<mapsto> PyBytes payload4_cut] 9545 = Some (PyBytes payload4_cut) \<and>
   length payload4_cut \<le> 8 \<and>
   parse (advert 9545 (PyBytes payload4_cut)) = Inr Map.empty"
proof -
  have h1: "manufacturer_data (advert 9545 (PyBytes payload4_cut))
              = Some (AttrDict [9545 \<mapsto> PyBytes payload4_cut])"
    by (rule manufacturer_data_advert)
  have h2: "[9545 \<mapsto> PyBytes payload4_cut] (9545 :: int) = Some (PyBytes payload4_cut)"
    by simp
  have h3: "length payload4_cut \<le> 8"
    by (simp add: length_samples)
  show ?thesis
    using h1 h2 h3 short_payload_no_reading [OF h1 h2 h3] by simp
qed




text \<open>
  C7. The two sample payloads of the specification under company id 9545: the first decodes
  to temperature 16.1, humidity 99.9 and battery 70, the second to temperature 15.9,
  humidity 99.9 and battery 86. The Python literal \<^verbatim>\<open>16.1\<close> denotes the float nearest to
  161/10, which is \<open>fl (161 / 10)\<close>, and likewise for the others.
\<close>

theorem sample_payloads_decode:
  "parse (advert 9545 (PyBytes payload4)) =
     Inr [''temperature'' \<mapsto> PyFloatNum (fl (161 / 10)),
          ''humidity'' \<mapsto> PyFloatNum (fl (999 / 10)),
          ''battery'' \<mapsto> PyIntNum 70] \<and>
   parse (advert 9545 (PyBytes payload5)) =
     Inr [''temperature'' \<mapsto> PyFloatNum (fl (159 / 10)),
          ''humidity'' \<mapsto> PyFloatNum (fl (999 / 10)),
          ''battery'' \<mapsto> PyIntNum 86]"
proof -
  have "parse (advert 9545 (PyBytes payload4)) = Inr (reading_dict payload4)"
    by (rule parse_reading [where mfg = "[9545 \<mapsto> PyBytes payload4]" and v = "PyBytes payload4"])
       (simp_all add: manufacturer_data_advert as_bytes_PyBytes length_samples)
  moreover have "parse (advert 9545 (PyBytes payload5)) = Inr (reading_dict payload5)"
    by (rule parse_reading [where mfg = "[9545 \<mapsto> PyBytes payload5]" and v = "PyBytes payload5"])
       (simp_all add: manufacturer_data_advert as_bytes_PyBytes length_samples)
  ultimately show ?thesis
    by (simp only: reading_dict_payload4 reading_dict_payload5)
qed

text \<open>
  C8. Two payloads of at least 9 bytes, each presented under company id 9545, that agree
  on the bytes at the offsets 4 to 8 decode to equal readings: the bytes 0 to 3, the bytes
  beyond offset 8 and the other entries of the dictionaries have no influence.
\<close>

theorem only_bytes_4_to_8_matter:
  assumes "manufacturer_data si = Some (AttrDict mfg)"
    and "mfg 9545 = Some (PyBytes p)"
    and "manufacturer_data si' = Some (AttrDict mfg')"
    and "mfg' 9545 = Some (PyBytes p')"
    and "9 \<le> length p" and "9 \<le> length p'"
    and "p ! 4 = p' ! 4 \<and> p ! 5 = p' ! 5 \<and> p ! 6 = p' ! 6 \<and> p ! 7 = p' ! 7 \<and> p ! 8 = p' ! 8"
  shows "parse si = parse si'"
proof -
  have "parse si = Inr (reading_dict p)"
    using assms(1,2) as_bytes_PyBytes by (rule parse_reading) (use assms(5) in simp)
  moreover have "parse si' = Inr (reading_dict p')"
    using assms(3,4) as_bytes_PyBytes by (rule parse_reading) (use assms(6) in simp)
  moreover have "reading_dict p = reading_dict p'"
    using assms(7) by (simp add: reading_dict_def temperature_of_def humidity_of_def battery_of_def)
  ultimately show ?thesis by simp
qed

theorem only_bytes_4_to_8_matter_witness:
  "manufacturer_data (advert 9545 (PyBytes payload4)) = Some (AttrDict [9545 \<mapsto> PyBytes payload4]) \<and>
   [9545 \<mapsto> PyBytes payload4] 9545 = Some (PyBytes payload4) \<and>
   manufacturer_data (advert 9545 (PyBytes payload4_other_frame))
     = Some (AttrDict [9545 \<mapsto> PyBytes payload4_other_frame]) \<and>
   [9545 \<mapsto> PyBytes payload4_other_frame] 9545 = Some (PyBytes payload4_other_frame) \<and>
   9 \<le> length payload4 \<and> 9 \<le> length payload4_other_frame \<and>
   payload4 ! 4 = payload4_other_frame ! 4 \<and> payload4 ! 5 = payload4_other_frame ! 5 \<and>
   payload4 ! 6 = payload4_other_frame ! 6 \<and> payload4 ! 7 = payload4_other_frame ! 7 \<and>
   payload4 ! 8 = payload4_other_frame ! 8 \<and>
   payload4 \<noteq> payload4_other_frame \<and>
   parse (advert 9545 (PyBytes payload4)) = parse (advert 9545 (PyBytes payload4_other_frame))"
proof -
  have h1: "manufacturer_data (advert 9545 (PyBytes payload4))
              = Some (AttrDict [9545 \<mapsto> PyBytes payload4])"
    by (rule manufacturer_data_advert)
  have h2: "[9545 \<mapsto> PyBytes payload4] (9545 :: int) = Some (PyBytes payload4)"
    by simp
  have h3: "manufacturer_data (advert 9545 (PyBytes payload4_other_frame))
              = Some (AttrDict [9545 \<mapsto> PyBytes payload4_other_frame])"
    by (rule manufacturer_data_advert)
  have h4: "[9545 \<mapsto> PyBytes payload4_other_frame] (9545 :: int)
              = Some (PyBytes payload4_other_frame)"
    by simp
  have h5: "9 \<le> length payload4" and h6: "9 \<le> length payload4_other_frame"
    by (simp_all add: length_samples)
  have h7: "payload4 ! 4 = payload4_other_frame ! 4 \<and> payload4 ! 5 = payload4_other_frame ! 5 \<and>
            payload4 ! 6 = payload4_other_frame ! 6 \<and> payload4 ! 7 = payload4_other_frame ! 7 \<and>
            payload4 ! 8 = payload4_other_frame ! 8"
    by (simp add: payload4_def payload4_other_frame_def)
  have h8: "payload4 \<noteq> payload4_other_frame"
    by (simp add: payload4_def payload4_other_frame_def)
  show ?thesis
    using h1 h2 h3 h4 h5 h6 h7 h8 only_bytes_4_to_8_matter [OF h1 h2 h3 h4 h5 h6 h7] by simp
qed

text \<open>
  C9. The decoder is deterministic and pure. Two calls on the same input end the same
  way, with dictionaries of the same content or with the same exception, whatever the
  heaps \<open>h\<close> and \<open>h'\<close> that earlier calls have left; a call changes no dictionary that
  existed before it, and the dictionary it returns is a new one, so later calls cannot
  change what an earlier one returned. A call returns no dictionary only when the
  input's own code raised the exception that passes.
\<close>

theorem parse_deterministic_and_pure:
  "outcome (parse_heap h si) = outcome (parse_heap h' si) \<and>
   take (length h) (snd (parse_heap h si)) = h \<and>
   ((\<exists>r. fst (parse_heap h si) = Inr r \<and> length h \<le> r) \<or>
    (\<exists>e. uncaught si = Some e \<and> fst (parse_heap h si) = Inl e))"
proof (intro conjI)
  show "outcome (parse_heap h si) = outcome (parse_heap h' si)"
    using parse_heap_shape [of si] by (auto simp: outcome_def nth_append)
  show "take (length h) (snd (parse_heap h si)) = h"
    using parse_heap_shape [of si] by auto
  show "(\<exists>r. fst (parse_heap h si) = Inr r \<and> length h \<le> r) \<or>
    (\<exists>e. uncaught si = Some e \<and> fst (parse_heap h si) = Inl e)"
    using parse_heap_shape [of si] by auto
qed

theorem parse_deterministic_and_pure_witness:
  "uncaught (advert 9545 (PyBytes payload5)) = None \<and>
   outcome (parse_heap [reading_dict payload4] (advert 9545 (PyBytes payload5)))
     = outcome (parse_heap [] (advert 9545 (PyBytes payload5))) \<and>
   take (length [reading_dict payload4])
     (snd (parse_heap [reading_dict payload4] (advert 9545 (PyBytes payload5))))
     = [reading_dict payload4] \<and>
   (\<exists>r. fst (parse_heap [reading_dict payload4] (advert 9545 (PyBytes payload5))) = Inr r \<and>
        length [reading_dict payload4] \<le> r)"
proof -
  have u: "uncaught (advert 9545 (PyBytes payload5)) = None"
    by (simp add: uncaught_def advert_def)
  with parse_deterministic_and_pure [of "[reading_dict payload4]"
      "advert 9545 (PyBytes payload5)" "[]"]
  show ?thesis by simp
qed

text \<open>
  C10. A byte payload of at least 9 bytes presented under company id 9545 always decodes
  to a fully populated reading, never to NoReading; for a byte payload under 9545 the
  result is NoReading exactly when the payload has 8 bytes or fewer.
\<close>

theorem long_payload_decodes:
  assumes "manufacturer_data si = Some (AttrDict mfg)"
    and "mfg 9545 = Some (PyBytes payload)"
  shows "(9 \<le> length payload \<longrightarrow>
            (\<exists>t h b. parse si = Inr [''temperature'' \<mapsto> PyFloatNum t, ''humidity'' \<mapsto> PyFloatNum h,
                                      ''battery'' \<mapsto> PyIntNum b])) \<and>
         (parse si = Inr Map.empty \<longleftrightarrow> length payload \<le> 8)"
proof (cases "length payload \<le> 8")
  case True
  then have "length (content (Bytes payload)) \<le> 8" by simp
  with assms(1,2) as_bytes_PyBytes have "parse si = Inr Map.empty"
    by (rule parse_short)
  with True show ?thesis by simp
next
  case False
  then have "8 < length payload" by simp
  with assms(1,2) as_bytes_PyBytes have "parse si = Inr (reading_dict payload)"
    by (rule parse_reading)
  moreover have "reading_dict payload \<noteq> Map.empty"
    by (rule reading_dict_not_empty)
  ultimately show ?thesis
    using False by (auto simp: reading_dict_def)
qed

theorem long_payload_decodes_witness:
  "manufacturer_data (advert 9545 (PyBytes payload5)) = Some (AttrDict [9545 \<mapsto> PyBytes payload5]) \<and>
   [9545 \<mapsto> PyBytes payload5] 9545 = Some (PyBytes payload5) \<and>
   9 \<le> length payload5 \<and>
   (\<exists>t h b. parse (advert 9545 (PyBytes payload5))
              = Inr [''temperature'' \<mapsto> PyFloatNum t, ''humidity'' \<mapsto> PyFloatNum h,
                     ''battery'' \<mapsto> PyIntNum b]) \<and>
   parse (advert 9545 (PyBytes payload5)) \<noteq> Inr Map.empty"
proof -
  have h1: "manufacturer_data (advert 9545 (PyBytes payload5))
              = Some (AttrDict [9545 \<mapsto> PyBytes payload5])"
    by (rule manufacturer_data_advert)
  have h2: "[9545 \<mapsto> PyBytes payload5] (9545 :: int) = Some (PyBytes payload5)"
    by simp
  have h3: "9 \<le> length payload5"
    by (simp add: length_samples)
  show ?thesis
    using h1 h2 h3 long_payload_decodes [OF h1 h2] by (simp add: length_samples)
qed

end
